theory Spec2Isabelle
  imports Main "HOL-Library.Multiset"
begin

section \<open>Search results (src/lib/github.ts)\<close>

text \<open>
  \<^verbatim>\<open>SearchResultType\<close> is the discriminant of the union
  \<^verbatim>\<open>SearchResult = UserResult | RepositoryResult\<close>. The union is one record here:
  the common fields of \<^verbatim>\<open>SearchResultBase\<close> and, optional, the fields of the two variants.
  A field declared \<^verbatim>\<open>?: T | null\<close> has three states: absent, \<^verbatim>\<open>null\<close>, a value.

  The field \<^verbatim>\<open>name\<close> is declared \<^verbatim>\<open>string\<close>; the comparator of
  \<^verbatim>\<open>useAutocomplete\<close> is nevertheless written with \<^verbatim>\<open>?.\<close> and \<^verbatim>\<open>??\<close> for a name
  that is \<^verbatim>\<open>undefined\<close>, so the field is optional here and \<open>None\<close> is that \<^verbatim>\<open>undefined\<close>.
  JavaScript strings are sequences of UTF-16 code units and \<^verbatim>\<open>.length\<close> counts them;
  a \<open>string\<close> here is the list of code units (for ASCII text, the characters).
\<close>

datatype SearchResultType = USER | REPOSITORY

datatype 'a nullable = Null | Value 'a

record SearchResult =
  id_r :: string
  name :: "string option"
  type_r :: SearchResultType
  url :: string
  avatar :: "string option"
  owner :: "string option"
  ownerAvatar :: "string option"
  description :: "string nullable option"
  stars :: "nat option"
  forks :: "nat option"
  language :: "string nullable option"

subsection \<open>The remote records and the remote search\<close>

text \<open>
  The items of the two REST search endpoints, with the fields the mappers read. The
  endpoints themselves belong to the Octokit client: a search is a parameter of the
  gateway, a function from the request to the thrown value or the items.
\<close>

record raw_user =
  user_id :: nat
  login :: string
  user_html_url :: string
  avatar_url :: string

record raw_owner =
  owner_login :: string
  owner_avatar_url :: string

record raw_repo =
  repo_id :: nat
  repo_name :: string
  repo_html_url :: string
  repo_owner :: "raw_owner option"
  repo_description :: "string nullable"
  stargazers_count :: nat
  forks_count :: nat
  repo_language :: "string nullable"

record search_request =
  q :: string
  per_page :: nat
  sort_param :: string
  order_param :: string

text \<open>
  What a \<^verbatim>\<open>catch\<close> receives: an \<^verbatim>\<open>Error\<close> with its message, or any other value that
  is truthy (a thrown falsy value, which the component would not report, has no
  constructor here).
\<close>

datatype thrown = ErrorObject string | OtherThrown

datatype endpoint = SearchUsers | SearchRepos

datatype gateway_effect =
  RemoteCall endpoint search_request
  | ConsoleError string thrown

type_synonym 'a remote = "search_request \<Rightarrow> thrown + 'a list"

text \<open>
  \<^verbatim>\<open>Number.prototype.toString\<close> on a non-negative integer below \<open>10\<^sup>2\<^sup>1\<close>, where the
  identifiers of the remote records lie: its decimal digits.
\<close>

fun toString :: "nat \<Rightarrow> string" where
  "toString n =
     (if n < 10 then [char_of (48 + n)]
      else toString (n div 10) @ [char_of (48 + n mod 10)])"

declare toString.simps [simp del]

definition mapGitHubUserToResult :: "raw_user \<Rightarrow> SearchResult" where
  "mapGitHubUserToResult user =
     \<lparr> id_r = toString (user_id user),
       name = Some (login user),
       type_r = USER,
       url = user_html_url user,
       avatar = Some (avatar_url user),
       owner = None, ownerAvatar = None, description = None,
       stars = None, forks = None, language = None \<rparr>"

definition mapGitHubRepoToResult :: "raw_repo \<Rightarrow> SearchResult" where
  "mapGitHubRepoToResult repo =
     \<lparr> id_r = toString (repo_id repo),
       name = Some (repo_name repo),
       type_r = REPOSITORY,
       url = repo_html_url repo,
       avatar = None,
       owner = map_option owner_login (repo_owner repo),
       ownerAvatar = map_option owner_avatar_url (repo_owner repo),
       description = Some (repo_description repo),
       stars = Some (stargazers_count repo),
       forks = Some (forks_count repo),
       language = Some (repo_language repo) \<rparr>"

text \<open>
  The two gateway operations return what the promise settles with (\<open>Inl\<close> the rejection)
  and the effects performed on the way, in order.
\<close>

definition searchUsers ::
  "raw_user remote \<Rightarrow> string \<Rightarrow> (thrown + SearchResult list) \<times> gateway_effect list" where
  "searchUsers users_endpoint query =
     (if query = [] \<or> length query < 3 then (Inr [], [])
      else
        let request = \<lparr> q = query, per_page = 50,
                         sort_param = ''followers'', order_param = ''desc'' \<rparr>
        in case users_endpoint request of
             Inr items \<Rightarrow>
               (Inr (map mapGitHubUserToResult items), [RemoteCall SearchUsers request])
           | Inl err \<Rightarrow>
               (Inl err, [RemoteCall SearchUsers request,
                          ConsoleError ''Error searching GitHub users:'' err]))"

definition searchRepositories ::
  "raw_repo remote \<Rightarrow> string \<Rightarrow> (thrown + SearchResult list) \<times> gateway_effect list" where
  "searchRepositories repos_endpoint query =
     (if query = [] \<or> length query < 3 then (Inr [], [])
      else
        let request = \<lparr> q = query, per_page = 50,
                         sort_param = ''stars'', order_param = ''desc'' \<rparr>
        in case repos_endpoint request of
             Inr items \<Rightarrow>
               (Inr (map mapGitHubRepoToResult items), [RemoteCall SearchRepos request])
           | Inl err \<Rightarrow>
               (Inl err, [RemoteCall SearchRepos request,
                          ConsoleError ''Error searching GitHub repositories:'' err]))"

section \<open>The orchestrator \<^verbatim>\<open>useAutocomplete\<close> (src/components/autocomplete.tsx)\<close>

text \<open>
  What \<^verbatim>\<open>useQueries\<close> hands back for one query, with the fields the hook reads:
  \<^verbatim>\<open>data\<close> is \<^verbatim>\<open>undefined\<close> (\<open>None\<close>) until the call has produced a result.
\<close>

record query_result =
  data :: "SearchResult list option"
  isLoading :: bool
  isFetching :: bool
  error :: "thrown option"

text \<open>
  \<^verbatim>\<open>String.prototype.localeCompare\<close> is the platform's collation: a parameter \<open>lc\<close>,
  negative when the receiver sorts before the argument. The comparator handed to
  \<^verbatim>\<open>sort\<close> is \<^verbatim>\<open>(a, b) => a.name?.localeCompare(b.name ?? "") ?? 0\<close>.
\<close>

type_synonym localeCompare = "string \<Rightarrow> string \<Rightarrow> int"

definition compareFn :: "localeCompare \<Rightarrow> SearchResult \<Rightarrow> SearchResult \<Rightarrow> int" where
  "compareFn lc a b =
     (case name a of
        None \<Rightarrow> 0
      | Some a_name \<Rightarrow> lc a_name (case name b of None \<Rightarrow> [] | Some b_name \<Rightarrow> b_name))"

text \<open>
  \<^verbatim>\<open>Array.prototype.sort\<close> is the platform's as well. For a consistent comparator
  ECMAScript fixes its result, the stable sorted permutation, whatever the engine; the
  model is a stable insertion sort that computes this permutation (ascending, a
  permutation and stable are proved below). Each element is placed after those before
  it and moves in front of an earlier one only when the comparator, asked about the
  later element against the earlier one, is negative; the sorted prefix is kept
  reversed in the accumulator. For a comparator that is not consistent ECMAScript
  leaves the order to the engine, and the model then stands for no particular engine.
  The comparator above is consistent on entries that all carry a name.
\<close>

fun place :: "('a \<Rightarrow> 'a \<Rightarrow> int) \<Rightarrow> 'a \<Rightarrow> 'a list \<Rightarrow> 'a list" where
  "place cmp x [] = [x]"
| "place cmp x (p # ps) = (if cmp x p < 0 then p # place cmp x ps else x # p # ps)"

fun sort_loop :: "('a \<Rightarrow> 'a \<Rightarrow> int) \<Rightarrow> 'a list \<Rightarrow> 'a list \<Rightarrow> 'a list" where
  "sort_loop cmp acc [] = rev acc"
| "sort_loop cmp acc (x # xs) = sort_loop cmp (place cmp x acc) xs"

definition js_sort :: "('a \<Rightarrow> 'a \<Rightarrow> int) \<Rightarrow> 'a list \<Rightarrow> 'a list" where
  "js_sort cmp xs = sort_loop cmp [] xs"

text \<open>The option \<^verbatim>\<open>enabled: query.length >= 3\<close> that both queries are created with.\<close>

definition queriesEnabled :: "string \<Rightarrow> bool" where
  "queriesEnabled debounced = (length debounced \<ge> 3)"

record autocomplete_result =
  results :: "SearchResult list"
  loading :: bool
  fetching :: bool
  error_r :: "thrown option"

definition useAutocomplete ::
  "localeCompare \<Rightarrow> query_result \<Rightarrow> query_result \<Rightarrow> autocomplete_result" where
  "useAutocomplete lc usersQuery reposQuery =
     (let users = (case data usersQuery of None \<Rightarrow> [] | Some d \<Rightarrow> d);
          repositories = (case data reposQuery of None \<Rightarrow> [] | Some d \<Rightarrow> d)
      in \<lparr> results = take 50 (js_sort (compareFn lc) (users @ repositories)),
           loading = (isLoading usersQuery \<or> isLoading reposQuery),
           fetching = (isFetching usersQuery \<or> isFetching reposQuery),
           error_r = (case error usersQuery of Some e \<Rightarrow> Some e | None \<Rightarrow> error reposQuery) \<rparr>)"

text \<open>
  The merge as the specification words it: the same concatenation, sort and cut, with
  every entry compared by its name and a missing name taken as the empty string.
\<close>

definition name_or_empty :: "SearchResult \<Rightarrow> string" where
  "name_or_empty r = (case name r of None \<Rightarrow> [] | Some n \<Rightarrow> n)"

definition merge_spec ::
  "localeCompare \<Rightarrow> SearchResult list \<Rightarrow> SearchResult list \<Rightarrow> SearchResult list" where
  "merge_spec lc users repositories =
     take 50 (js_sort (\<lambda>a b. lc (name_or_empty a) (name_or_empty b)) (users @ repositories))"

text \<open>
  A collation to run the definitions on: code units compared left to right, a proper
  prefix first. On the lower-case ASCII words of the examples every locale agrees with it.
\<close>

fun codeUnitCompare :: localeCompare where
  "codeUnitCompare [] [] = 0"
| "codeUnitCompare [] (y # ys) = - 1"
| "codeUnitCompare (x # xs) [] = 1"
| "codeUnitCompare (x # xs) (y # ys) =
     (if (of_char x :: nat) < of_char y then - 1
      else if (of_char y :: nat) < of_char x then 1
      else codeUnitCompare xs ys)"

text \<open>A comparator the sort can order by: a strict weak order.\<close>

definition consistent :: "('a \<Rightarrow> 'a \<Rightarrow> int) \<Rightarrow> bool" where
  "consistent cmp =
     ((\<forall>a b. cmp a b < 0 \<longrightarrow> \<not> cmp b a < 0) \<and>
      (\<forall>a b c. \<not> cmp a b < 0 \<longrightarrow> \<not> cmp b c < 0 \<longrightarrow> \<not> cmp a c < 0))"

section \<open>The component \<^verbatim>\<open>Autocomplete\<close> (src/components/autocomplete.tsx)\<close>

text \<open>
  The state of one render: the three \<^verbatim>\<open>useState\<close> cells, the debounced query, the
  values \<^verbatim>\<open>useAutocomplete\<close> returned, and the effects performed so far on the outside
  (the key event, the window, the input element, the list element), in order.
\<close>

datatype effect =
  PreventDefault
  | WindowOpen string string
  | InputBlur
  | ScrollIntoView int

record component =
  query :: string
  debouncedQuery :: string
  selectedIndex :: int
  focused :: bool
  shown :: autocomplete_result
  effects :: "effect list"

definition initial :: component where
  "initial =
     \<lparr> query = [], debouncedQuery = [], selectedIndex = - 1, focused = False,
       shown = \<lparr> results = [], loading = False, fetching = False, error_r = None \<rparr>,
       effects = [] \<rparr>"

definition perform :: "effect \<Rightarrow> component \<Rightarrow> component" where
  "perform e s = s\<lparr> effects := effects s @ [e] \<rparr>"

definition navigateDown :: "component \<Rightarrow> component" where
  "navigateDown s =
     s\<lparr> selectedIndex :=
          (if selectedIndex s < int (length (results (shown s))) - 1
           then selectedIndex s + 1 else selectedIndex s) \<rparr>"

definition navigateUp :: "component \<Rightarrow> component" where
  "navigateUp s =
     s\<lparr> selectedIndex := (if selectedIndex s > 0 then selectedIndex s - 1 else 0) \<rparr>"

definition handleSelectResult :: "SearchResult \<Rightarrow> component \<Rightarrow> component" where
  "handleSelectResult result s = perform InputBlur (perform (WindowOpen (url result) ''_blank'') s)"

definition handleMouseEnter :: "int \<Rightarrow> component \<Rightarrow> component" where
  "handleMouseEnter index s = s\<lparr> selectedIndex := index \<rparr>"

definition handleQueryChange :: "string \<Rightarrow> component \<Rightarrow> component" where
  "handleQueryChange v s = s\<lparr> query := v \<rparr>"

definition handleKeyDown :: "string \<Rightarrow> component \<Rightarrow> component" where
  "handleKeyDown key s =
     (if results (shown s) = [] \<or> fetching (shown s) then s
      else if key = ''ArrowDown'' then navigateDown (perform PreventDefault s)
      else if key = ''ArrowUp'' then navigateUp (perform PreventDefault s)
      else if key = ''Enter'' then
        (let s1 = perform PreventDefault s in
         if selectedIndex s1 \<ge> 0 \<and> selectedIndex s1 < int (length (results (shown s1)))
         then handleSelectResult (results (shown s1) ! nat (selectedIndex s1)) s1
         else s1)
      else if key = ''Escape'' then
        perform InputBlur ((perform PreventDefault s)\<lparr> focused := False \<rparr>)
      else s)"

text \<open>
  The \<^verbatim>\<open>mousedown\<close> listener on the document; \<open>inside\<close> says whether the container
  contains the event's target.
\<close>

definition handleClickOutside :: "bool \<Rightarrow> component \<Rightarrow> component" where
  "handleClickOutside inside s = (if inside then s else s\<lparr> focused := False \<rparr>)"

definition handleFocus :: "component \<Rightarrow> component" where
  "handleFocus s = s\<lparr> focused := True \<rparr>"

subsection \<open>What the dropdown renders\<close>

datatype panel_item =
  ErrorMessage string
  | NoResultsMessage string
  | Listbox "(SearchResult \<times> bool) list" bool
  | MinLengthHint

definition errorText :: "thrown \<Rightarrow> string" where
  "errorText e =
     (case e of
        ErrorObject message \<Rightarrow> message
      | OtherThrown \<Rightarrow>
          ''Failed to fetch results. GitHub API rate limit may have been exceeded.'')"

definition noResultsText :: "string \<Rightarrow> string" where
  "noResultsText dq = ''No results found for '' @ [CHR 0x22] @ dq @ [CHR 0x22]"

text \<open>\<^verbatim>\<open>SearchResults\<close>: \<open>None\<close> is the \<^verbatim>\<open>null\<close> it returns, \<open>Some\<close> the children of its panel.\<close>

definition SearchResults ::
  "SearchResult list \<Rightarrow> int \<Rightarrow> bool \<Rightarrow> thrown option \<Rightarrow> string \<Rightarrow> panel_item list option" where
  "SearchResults rs selected is_fetching err dq =
     (if is_fetching \<and> rs = [] then None
      else Some
        ((case err of Some e \<Rightarrow> [ErrorMessage (errorText e)] | None \<Rightarrow> []) @
         (if err = None \<and> length dq > 3 \<and> rs = [] then [NoResultsMessage (noResultsText dq)] else []) @
         (if length rs > 0
          then [Listbox (map (\<lambda>(index, r). (r, int index = selected)) (enumerate 0 rs)) is_fetching]
          else []) @
         (if length dq < 3 then [MinLengthHint] else [])))"

definition dropdown :: "component \<Rightarrow> panel_item list option" where
  "dropdown s =
     (if focused s
      then SearchResults (results (shown s)) (selectedIndex s) (fetching (shown s))
             (error_r (shown s)) (debouncedQuery s)
      else None)"

subsection \<open>Events and the effects that follow a render\<close>

text \<open>
  \<open>HooksUpdate\<close> is a render on which \<^verbatim>\<open>useDebounceValue\<close> and \<^verbatim>\<open>useQueries\<close> deliver
  the debounced query and the two query results. \<open>MouseEnter\<close> and \<open>ResultClick\<close> are
  the pointer entering, and a click on, the row at an index: the row carries the two
  handlers, and it exists when the dropdown is rendered and the index is one of the list.
\<close>

datatype event =
  QueryChange string
  | KeyDown string
  | InputFocus
  | MouseEnter nat
  | ResultClick nat
  | MouseDown bool
  | HooksUpdate string query_result query_result

definition handle :: "localeCompare \<Rightarrow> event \<Rightarrow> component \<Rightarrow> component" where
  "handle lc e s =
     (case e of
        QueryChange v \<Rightarrow> handleQueryChange v s
      | KeyDown key \<Rightarrow> handleKeyDown key s
      | InputFocus \<Rightarrow> handleFocus s
      | MouseEnter index \<Rightarrow>
          (if focused s \<and> index < length (results (shown s))
           then handleMouseEnter (int index) s else s)
      | ResultClick index \<Rightarrow>
          (if focused s \<and> index < length (results (shown s))
           then handleSelectResult (results (shown s) ! index) s else s)
      | MouseDown inside \<Rightarrow> handleClickOutside inside s
      | HooksUpdate dq usersQuery reposQuery \<Rightarrow>
          s\<lparr> debouncedQuery := dq, shown := useAutocomplete lc usersQuery reposQuery \<rparr>)"

text \<open>
  The two \<^verbatim>\<open>useEffect\<close>s that depend on state: the scroll of the selected row into view
  when \<^verbatim>\<open>selectedIndex\<close> has changed (the list element exists when the dropdown renders
  a non-empty list), and the reset of the selection when \<^verbatim>\<open>fetching\<close> has changed to
  false.
\<close>

definition scrollEffect :: "component \<Rightarrow> component \<Rightarrow> component" where
  "scrollEffect before s =
     (if selectedIndex s \<noteq> selectedIndex before \<and> selectedIndex s \<ge> 0
         \<and> focused s \<and> results (shown s) \<noteq> []
         \<and> selectedIndex s < int (length (results (shown s)))
      then perform (ScrollIntoView (selectedIndex s)) s else s)"

definition fetchingEffect :: "component \<Rightarrow> component \<Rightarrow> component" where
  "fetchingEffect before s =
     (if fetching (shown s) \<noteq> fetching (shown before) \<and> \<not> fetching (shown s)
      then s\<lparr> selectedIndex := - 1 \<rparr> else s)"

definition step :: "localeCompare \<Rightarrow> event \<Rightarrow> component \<Rightarrow> component" where
  "step lc e s = fetchingEffect s (scrollEffect s (handle lc e s))"

fun run :: "localeCompare \<Rightarrow> event list \<Rightarrow> component \<Rightarrow> component" where
  "run lc [] s = s"
| "run lc (e # es) s = run lc es (step lc e s)"

section \<open>Example data (src/components/autocomplete.test.tsx)\<close>

text \<open>
  The mocked results of the component's tests, remote records and endpoints that
  answer with them or reject, the two states of a query the tests drive (in flight with
  no data yet, resolved with data), and the component showing a result list after the
  query \<^verbatim>\<open>smith\<close>.
\<close>

definition mockUser :: "string \<Rightarrow> string \<Rightarrow> string \<Rightarrow> string \<Rightarrow> SearchResult" where
  "mockUser i n u a =
     \<lparr> id_r = i, name = Some n, type_r = USER, url = u, avatar = Some a,
       owner = None, ownerAvatar = None, description = None,
       stars = None, forks = None, language = None \<rparr>"

definition johnsmith :: SearchResult where
  "johnsmith = mockUser ''user1'' ''johnsmith'' ''https://github.com/johnsmith''
     ''https://avatars.githubusercontent.com/u/1234''"

definition janesmith :: SearchResult where
  "janesmith = mockUser ''user2'' ''janesmith'' ''https://github.com/janesmith''
     ''https://avatars.githubusercontent.com/u/5678''"

definition cool_lib :: SearchResult where
  "cool_lib =
     \<lparr> id_r = ''repo2'', name = Some ''cool-lib'', type_r = REPOSITORY,
       url = ''https://github.com/janesmith/cool-lib'', avatar = None,
       owner = Some ''janesmith'', ownerAvatar = None,
       description = Some (Value ''A cool library''),
       stars = Some 500, forks = Some 50, language = Some (Value ''JavaScript'') \<rparr>"



definition found :: "'a list \<Rightarrow> 'a remote" where
  "found items request = Inr items"

definition pending :: query_result where
  "pending = \<lparr> data = None, isLoading = True, isFetching = True, error = None \<rparr>"

definition success :: "SearchResult list \<Rightarrow> query_result" where
  "success d = \<lparr> data = Some d, isLoading = False, isFetching = False, error = None \<rparr>"

definition rateLimited :: "'a remote" where
  "rateLimited request = Inl (ErrorObject ''API rate limit exceeded'')"

definition showing :: "SearchResult list \<Rightarrow> bool \<Rightarrow> int \<Rightarrow> component" where
  "showing rs is_fetching i =
     \<lparr> query = ''smith'', debouncedQuery = ''smith'', selectedIndex = i, focused = True,
       shown = \<lparr> results = rs, loading = False, fetching = is_fetching, error_r = None \<rparr>,
       effects = [] \<rparr>"

section \<open>Properties of the sort\<close>

lemma length_place: "length (place cmp x ps) = Suc (length ps)"
  by (induction ps) simp_all

lemma mset_place: "mset (place cmp x ps) = add_mset x (mset ps)"
  by (induction ps) simp_all

lemma set_place: "set (place cmp x ps) = insert x (set ps)"
  by (induction ps) auto

lemma length_sort_loop: "length (sort_loop cmp acc xs) = length acc + length xs"
  by (induction xs arbitrary: acc) (simp_all add: length_place)

lemma mset_sort_loop: "mset (sort_loop cmp acc xs) = mset acc + mset xs"
  by (induction xs arbitrary: acc) (simp_all add: mset_place)

lemma length_js_sort: "length (js_sort cmp xs) = length xs"
  by (simp add: js_sort_def length_sort_loop)

lemma mset_js_sort: "mset (js_sort cmp xs) = mset xs"
  by (simp add: js_sort_def mset_sort_loop)

lemma set_js_sort: "set (js_sort cmp xs) = set xs"
  using mset_js_sort [of cmp xs] by (metis set_mset_mset)

lemma js_sort_Nil_iff: "js_sort cmp xs = [] \<longleftrightarrow> xs = []"
  using length_js_sort [of cmp xs] by (metis length_0_conv)





text \<open>
  With a consistent comparator the result is ascending: no entry is followed by one
  that the comparator puts before it.
\<close>

lemma place_descending:
  assumes "consistent cmp" and "sorted_wrt (\<lambda>a b. \<not> cmp a b < 0) ps"
  shows "sorted_wrt (\<lambda>a b. \<not> cmp a b < 0) (place cmp x ps)"
  using assms(2)
proof (induction ps)
  case Nil
  then show ?case by simp
next
  case (Cons p ps)
  from assms(1) have asym: "\<And>a b. cmp a b < 0 \<Longrightarrow> \<not> cmp b a < 0"
    and trans: "\<And>a b c. \<not> cmp a b < 0 \<Longrightarrow> \<not> cmp b c < 0 \<Longrightarrow> \<not> cmp a c < 0"
    unfolding consistent_def by blast+
  show ?case
  proof (cases "cmp x p < 0")
    case True
    with Cons asym show ?thesis by (auto simp add: set_place)
  next
    case False
    with Cons.prems trans show ?thesis by auto
  qed
qed

lemma sort_loop_ascending:
  assumes "consistent cmp" and "sorted_wrt (\<lambda>a b. \<not> cmp a b < 0) acc"
  shows "sorted_wrt (\<lambda>a b. \<not> cmp b a < 0) (sort_loop cmp acc xs)"
  using assms(2)
proof (induction xs arbitrary: acc)
  case Nil
  then show ?case by (simp add: sorted_wrt_rev)
next
  case (Cons x xs)
  then show ?case by (simp add: place_descending [OF assms(1)])
qed

lemma js_sort_ascending:
  "consistent cmp \<Longrightarrow> sorted_wrt (\<lambda>a b. \<not> cmp b a < 0) (js_sort cmp xs)"
  unfolding js_sort_def by (rule sort_loop_ascending) simp_all

text \<open>Stability: entries none of which the comparator puts before another keep their order.\<close>

lemma filter_place:
  assumes "P x \<Longrightarrow> (\<And>p. p \<in> set ps \<Longrightarrow> P p \<Longrightarrow> \<not> cmp x p < 0)"
  shows "filter P (place cmp x ps) = (if P x then x # filter P ps else filter P ps)"
  using assms by (induction ps) auto

lemma filter_sort_loop:
  assumes "\<And>a b. a \<in> set acc \<union> set xs \<Longrightarrow> b \<in> set acc \<union> set xs \<Longrightarrow> P a \<Longrightarrow> P b
             \<Longrightarrow> \<not> cmp a b < 0"
  shows "filter P (sort_loop cmp acc xs) = rev (filter P acc) @ filter P xs"
  using assms
proof (induction xs arbitrary: acc)
  case Nil
  then show ?case by (simp add: rev_filter)
next
  case (Cons x xs)
  have f: "filter P (place cmp x acc) = (if P x then x # filter P acc else filter P acc)"
    by (rule filter_place) (simp add: Cons.prems)
  have "filter P (sort_loop cmp (place cmp x acc) xs)
      = rev (filter P (place cmp x acc)) @ filter P xs"
  proof (rule Cons.IH)
    fix a b
    assume "a \<in> set (place cmp x acc) \<union> set xs" and "b \<in> set (place cmp x acc) \<union> set xs"
      and "P a" and "P b"
    then show "\<not> cmp a b < 0"
      using Cons.prems [of a b] by (auto simp add: set_place)
  qed
  with f show ?case by simp
qed

lemma js_sort_stable:
  assumes "\<And>a b. a \<in> set xs \<Longrightarrow> b \<in> set xs \<Longrightarrow> P a \<Longrightarrow> P b \<Longrightarrow> \<not> cmp a b < 0"
  shows "filter P (js_sort cmp xs) = filter P xs"
  unfolding js_sort_def using filter_sort_loop [of "[]" xs P cmp] assms by simp

subsection \<open>The example collation is consistent\<close>

lemma codeUnitCompare_asym: "codeUnitCompare a b < 0 \<Longrightarrow> \<not> codeUnitCompare b a < 0"
  by (induction a b rule: codeUnitCompare.induct) (auto split: if_splits)

lemma codeUnitCompare_negtrans:
  "\<not> codeUnitCompare a b < 0 \<Longrightarrow> \<not> codeUnitCompare b c < 0 \<Longrightarrow> \<not> codeUnitCompare a c < 0"
proof (induction a c arbitrary: b rule: codeUnitCompare.induct)
  case 1
  then show ?case by simp
next
  case (2 y ys)
  then show ?case by (cases b) (auto split: if_splits)
next
  case (3 x xs)
  then show ?case by simp
next
  case (4 x xs y ys)
  show ?case
  proof (cases b)
    case Nil
    with 4 show ?thesis by simp
  next
    case (Cons z zs)
    with 4 show ?thesis by (auto split: if_splits)
  qed
qed

lemma consistent_codeUnitCompare: "consistent codeUnitCompare"
  unfolding consistent_def using codeUnitCompare_asym codeUnitCompare_negtrans by blast

section \<open>The gateway\<close>

text \<open>
  Claim C7. A query that is empty or shorter than 3 characters makes both gateway
  operations settle with the empty list at once: no remote call is made, nothing is
  logged, and the promise resolves rather than rejects, whatever the remote would answer.
\<close>

theorem short_query_short_circuit:
  assumes "length qry < 3"
  shows "searchUsers users_endpoint qry = (Inr [], []) \<and>
         searchRepositories repos_endpoint qry = (Inr [], [])"
  using assms by (simp add: searchUsers_def searchRepositories_def)

theorem short_query_short_circuit_witness:
  "searchUsers rateLimited ''ab'' = (Inr [], []) \<and>
   searchRepositories rateLimited [] = (Inr [], [])"
  using short_query_short_circuit [of "''ab''" rateLimited rateLimited]
    short_query_short_circuit [of "[]" rateLimited rateLimited]
  by simp

text \<open>From 3 characters on, each operation makes its remote call, once.\<close>

lemma long_query_calls_remote:
  "3 \<le> length qry \<Longrightarrow>
   length (filter (\<lambda>e. \<exists>ep r. e = RemoteCall ep r) (snd (searchUsers ep qry))) = 1 \<and>
   length (filter (\<lambda>e. \<exists>ep r. e = RemoteCall ep r) (snd (searchRepositories ep' qry))) = 1"
  by (auto simp add: searchUsers_def searchRepositories_def Let_def split: sum.splits)

text \<open>The operations short-circuit on exactly the queries the orchestrator leaves disabled.\<close>

lemma short_circuit_iff_disabled:
  "searchUsers ep qry = (Inr [], []) \<longleftrightarrow> \<not> queriesEnabled qry"
  "searchRepositories ep' qry = (Inr [], []) \<longleftrightarrow> \<not> queriesEnabled qry"
  by (auto simp add: searchUsers_def searchRepositories_def queriesEnabled_def Let_def
      split: sum.splits)


section \<open>The orchestrator\<close>


text \<open>
  What the merge by name is: ascending under a consistent collation, at most 50 entries,
  taken from the two lists.
\<close>

lemma consistent_by_name:
  "consistent lc \<Longrightarrow> consistent (\<lambda>a b. lc (name_or_empty a) (name_or_empty b))"
  unfolding consistent_def by blast

lemma merge_spec_ascending:
  "consistent lc \<Longrightarrow>
   sorted_wrt (\<lambda>a b. \<not> lc (name_or_empty b) (name_or_empty a) < 0)
     (merge_spec lc users repositories)"
  unfolding merge_spec_def
  using js_sort_ascending [OF consistent_by_name, of lc "users @ repositories"]
  by (simp add: sorted_wrt_take)

lemma merge_spec_length:
  "length (merge_spec lc users repositories) = min 50 (length users + length repositories)"
  by (simp add: merge_spec_def length_js_sort)

lemma merge_spec_subset:
  "mset (merge_spec lc users repositories) \<subseteq># mset users + mset repositories"
proof -
  let ?s = "js_sort (\<lambda>a b. lc (name_or_empty a) (name_or_empty b)) (users @ repositories)"
  have "mset (take 50 ?s) \<subseteq># mset ?s"
    by (metis append_take_drop_id mset_append mset_subset_eq_add_left)
  then show ?thesis by (simp add: merge_spec_def mset_js_sort)
qed




text \<open>
  One call resolved with an entry, the other still in flight: the entry is a result, and
  the focused component lists it (dimmed, as a fetch is in flight).
\<close>

theorem partial_results_exposed:
  "results (useAutocomplete codeUnitCompare (success [johnsmith]) pending) = [johnsmith] \<and>
   fetching (useAutocomplete codeUnitCompare (success [johnsmith]) pending) \<and>
   dropdown (run codeUnitCompare
      [InputFocus, QueryChange ''smith'', HooksUpdate ''smith'' pending pending,
       HooksUpdate ''smith'' (success [johnsmith]) pending] initial)
     = Some [Listbox [(johnsmith, False)] True]"
  by (simp add: useAutocomplete_def success_def pending_def js_sort_def dropdown_def
      SearchResults_def step_def handle_def initial_def handleFocus_def handleQueryChange_def
      scrollEffect_def fetchingEffect_def enumerate_eq_zip)

text \<open>
  Claim C3, amended. While exactly one of the two calls has a result and the other has
  none yet, the result list is the merge of what is there: the entries of the resolved
  call, sorted and cut to 50, the pending call counting as the empty list. It is empty
  only when the resolved call returned no entry; nothing waits for the second call.
\<close>

theorem results_while_one_pending:
  assumes "data usersQuery = Some d \<and> data reposQuery = None
         \<or> data usersQuery = None \<and> data reposQuery = Some d"
  shows "results (useAutocomplete lc usersQuery reposQuery) = take 50 (js_sort (compareFn lc) d) \<and>
         (results (useAutocomplete lc usersQuery reposQuery) = [] \<longleftrightarrow> d = [])"
proof -
  have r: "results (useAutocomplete lc usersQuery reposQuery) = take 50 (js_sort (compareFn lc) d)"
    using assms by (auto simp add: useAutocomplete_def)
  have "take 50 (js_sort (compareFn lc) d) = [] \<longleftrightarrow> d = []"
    by (simp add: take_eq_Nil js_sort_Nil_iff)
  with r show ?thesis by simp
qed

theorem results_while_one_pending_witness:
  "results (useAutocomplete codeUnitCompare pending (success [cool_lib])) = [cool_lib]"
  using results_while_one_pending [of pending "[cool_lib]" "success [cool_lib]" codeUnitCompare]
  by (simp add: pending_def success_def js_sort_def)

section \<open>The component\<close>

lemma perform_fields:
  "shown (perform e s) = shown s"
  "selectedIndex (perform e s) = selectedIndex s"
  "focused (perform e s) = focused s"
  "effects (perform e s) = effects s @ [e]"
  by (simp_all add: perform_def)

lemma fetchingEffect_same_shown: "shown t = shown s \<Longrightarrow> fetchingEffect s t = t"
  by (simp add: fetchingEffect_def)


lemma scrollEffect_fields:
  "shown (scrollEffect b s) = shown s"
  "selectedIndex (scrollEffect b s) = selectedIndex s"
  "focused (scrollEffect b s) = focused s"
  by (simp_all add: scrollEffect_def perform_fields)

lemma handleKeyDown_shown: "shown (handleKeyDown key s) = shown s"
  by (simp add: handleKeyDown_def navigateDown_def navigateUp_def handleSelectResult_def Let_def
      perform_fields)

lemma focused_handleKeyDown:
  "focused (handleKeyDown key s) =
     (focused s \<and> \<not> (key = ''Escape'' \<and> results (shown s) \<noteq> [] \<and> \<not> fetching (shown s)))"
  by (simp add: handleKeyDown_def navigateDown_def navigateUp_def handleSelectResult_def Let_def
      perform_fields)


lemma step_KeyDown_selectedIndex:
  "selectedIndex (step lc (KeyDown key) s) = selectedIndex (handleKeyDown key s)"
  by (simp add: step_def handle_def fetchingEffect_same_shown scrollEffect_fields
      handleKeyDown_shown)

lemma step_KeyDown_shown: "shown (step lc (KeyDown key) s) = shown s"
  by (simp add: step_def handle_def fetchingEffect_same_shown scrollEffect_fields
      handleKeyDown_shown)

lemma arrowDown_selectedIndex:
  "results (shown s) \<noteq> [] \<Longrightarrow> \<not> fetching (shown s) \<Longrightarrow>
   selectedIndex (handleKeyDown ''ArrowDown'' s) =
     (if selectedIndex s < int (length (results (shown s))) - 1 then selectedIndex s + 1
      else selectedIndex s)"
  by (simp add: handleKeyDown_def navigateDown_def perform_fields)

lemma arrowUp_selectedIndex:
  "results (shown s) \<noteq> [] \<Longrightarrow> \<not> fetching (shown s) \<Longrightarrow>
   selectedIndex (handleKeyDown ''ArrowUp'' s)
     = (if selectedIndex s > 0 then selectedIndex s - 1 else 0)"
  by (simp add: handleKeyDown_def navigateUp_def perform_fields)

subsection \<open>The guard of the keyboard handler\<close>

text \<open>
  Claim C5. While the result list is empty or a fetch is in flight, a key press of any
  kind (the four commands included) is ignored: the handler returns the state as it
  was, the effects performed so far included, and no effect follows the render.
\<close>

theorem keyboard_ignored:
  assumes "results (shown s) = [] \<or> fetching (shown s)"
  shows "handleKeyDown key s = s \<and> step lc (KeyDown key) s = s"
proof -
  have h: "handleKeyDown key s = s"
    using assms by (auto simp add: handleKeyDown_def)
  have "scrollEffect s s = s" by (simp add: scrollEffect_def)
  moreover have "fetchingEffect s s = s" by (simp add: fetchingEffect_def)
  ultimately have "step lc (KeyDown key) s = s"
    by (simp add: step_def handle_def h)
  with h show ?thesis by simp
qed

theorem keyboard_ignored_witness:
  "handleKeyDown ''Escape'' (showing [] False 0) = showing [] False 0 \<and>
   step codeUnitCompare (KeyDown ''Enter'') (showing [janesmith, johnsmith] True 1)
     = showing [janesmith, johnsmith] True 1"
  using keyboard_ignored [of "showing [] False 0" "''Escape''" codeUnitCompare]
    keyboard_ignored [of "showing [janesmith, johnsmith] True 1" "''Enter''" codeUnitCompare]
  by (simp add: showing_def)

subsection \<open>Navigation\<close>

text \<open>
  Claim C10. With a non-empty result list, no fetch in flight and no selection
  (\<^verbatim>\<open>selectedIndex = -1\<close>), one move-down selects index 0, and so does one move-up.
\<close>

theorem first_navigation_selects_first:
  assumes "results (shown s) \<noteq> []" and "\<not> fetching (shown s)" and "selectedIndex s = - 1"
  shows "selectedIndex (handleKeyDown ''ArrowDown'' s) = 0 \<and>
         selectedIndex (handleKeyDown ''ArrowUp'' s) = 0 \<and>
         selectedIndex (step lc (KeyDown ''ArrowDown'') s) = 0 \<and>
         selectedIndex (step lc (KeyDown ''ArrowUp'') s) = 0"
proof -
  from assms(1) have "0 < length (results (shown s))" by simp
  then have "- 1 < int (length (results (shown s))) - 1" by simp
  with assms show ?thesis
    by (simp add: step_KeyDown_selectedIndex arrowDown_selectedIndex arrowUp_selectedIndex)
qed

theorem first_navigation_selects_first_witness:
  "selectedIndex (handleKeyDown ''ArrowDown'' (showing [janesmith, johnsmith] False (- 1))) = 0 \<and>
   selectedIndex (handleKeyDown ''ArrowUp'' (showing [janesmith, johnsmith] False (- 1))) = 0"
  using first_navigation_selects_first [of "showing [janesmith, johnsmith] False (- 1)"
      codeUnitCompare]
  by (simp add: showing_def)

lemma nav_step_bounds:
  assumes "results (shown s) \<noteq> []" and "\<not> fetching (shown s)"
    and "- 1 \<le> selectedIndex s" and "selectedIndex s < int (length (results (shown s)))"
    and "key = ''ArrowDown'' \<or> key = ''ArrowUp''"
  shows "0 \<le> selectedIndex (step lc (KeyDown key) s) \<and>
         selectedIndex (step lc (KeyDown key) s) < int (length (results (shown s)))"
proof -
  define n where "n = int (length (results (shown s)))"
  define i where "i = selectedIndex s"
  from assms(1) have n: "1 \<le> n" by (cases "results (shown s)") (simp_all add: n_def)
  have d: "selectedIndex (handleKeyDown ''ArrowDown'' s) = (if i < n - 1 then i + 1 else i)"
    using arrowDown_selectedIndex [OF assms(1,2)] by (simp add: n_def i_def)
  have u: "selectedIndex (handleKeyDown ''ArrowUp'' s) = (if i > 0 then i - 1 else 0)"
    using arrowUp_selectedIndex [OF assms(1,2)] by (simp add: i_def)
  from assms(3,4) have i: "- 1 \<le> i" "i < n" by (simp_all add: n_def i_def)
  have "0 \<le> (if i < n - 1 then i + 1 else i) \<and> (if i < n - 1 then i + 1 else i) < n"
    using n i by auto
  moreover have "0 \<le> (if i > 0 then i - 1 else 0) \<and> (if i > 0 then i - 1 else 0) < n"
    using n i by auto
  ultimately have both:
    "0 \<le> selectedIndex (handleKeyDown ''ArrowDown'' s)
       \<and> selectedIndex (handleKeyDown ''ArrowDown'' s) < n"
    "0 \<le> selectedIndex (handleKeyDown ''ArrowUp'' s)
       \<and> selectedIndex (handleKeyDown ''ArrowUp'' s) < n"
    by (simp_all only: d u)
  from assms(5) show ?thesis
  proof
    assume "key = ''ArrowDown''"
    with both(1) show ?thesis by (simp only: step_KeyDown_selectedIndex n_def)
  next
    assume "key = ''ArrowUp''"
    with both(2) show ?thesis by (simp only: step_KeyDown_selectedIndex n_def)
  qed
qed

lemma nav_run_bounds:
  assumes "results (shown s) \<noteq> []" and "\<not> fetching (shown s)"
    and "- 1 \<le> selectedIndex s" and "selectedIndex s < int (length (results (shown s)))"
    and "set keys \<subseteq> {''ArrowDown'', ''ArrowUp''}"
  shows "shown (run lc (map KeyDown keys) s) = shown s \<and>
         - 1 \<le> selectedIndex (run lc (map KeyDown keys) s) \<and>
         selectedIndex (run lc (map KeyDown keys) s) < int (length (results (shown s))) \<and>
         (keys \<noteq> [] \<longrightarrow> 0 \<le> selectedIndex (run lc (map KeyDown keys) s))"
  using assms
proof (induction keys arbitrary: s)
  case Nil
  then show ?case by simp
next
  case (Cons k ks)
  let ?t = "step lc (KeyDown k) s"
  from Cons.prems have k: "k = ''ArrowDown'' \<or> k = ''ArrowUp''" by simp
  have sh: "shown ?t = shown s" by (rule step_KeyDown_shown)
  have b: "0 \<le> selectedIndex ?t \<and> selectedIndex ?t < int (length (results (shown s)))"
    using nav_step_bounds [OF Cons.prems(1-4) k] .
  have ih: "shown (run lc (map KeyDown ks) ?t) = shown ?t \<and>
         - 1 \<le> selectedIndex (run lc (map KeyDown ks) ?t) \<and>
         selectedIndex (run lc (map KeyDown ks) ?t) < int (length (results (shown ?t))) \<and>
         (ks \<noteq> [] \<longrightarrow> 0 \<le> selectedIndex (run lc (map KeyDown ks) ?t))"
    using Cons.prems b by (intro Cons.IH) (simp_all add: sh)
  show ?case
  proof (cases ks)
    case Nil
    with b sh show ?thesis by simp
  next
    case (Cons k' ks')
    with ih sh show ?thesis by simp
  qed
qed

text \<open>
  Claim C4. Over a non-empty result list of length \<open>n\<close> with no fetch in flight, and
  from a selection that is none (\<open>-1\<close>) or an index of the list, any sequence of
  move-down and move-up commands leaves \<^verbatim>\<open>selectedIndex\<close> at most \<open>n - 1\<close> and, once a
  command has run, at least 0. Move-down at the last index keeps the last index (no
  wrap), and move-up at index 0 keeps 0.
\<close>

theorem selectedIndex_within_bounds:
  assumes "results (shown s) \<noteq> []" and "\<not> fetching (shown s)"
    and "- 1 \<le> selectedIndex s" and "selectedIndex s < int (length (results (shown s)))"
    and "set keys \<subseteq> {''ArrowDown'', ''ArrowUp''}"
  shows "selectedIndex (run lc (map KeyDown keys) s) \<le> int (length (results (shown s))) - 1 \<and>
         - 1 \<le> selectedIndex (run lc (map KeyDown keys) s) \<and>
         (keys \<noteq> [] \<longrightarrow> 0 \<le> selectedIndex (run lc (map KeyDown keys) s)) \<and>
         (selectedIndex s = int (length (results (shown s))) - 1 \<longrightarrow>
            selectedIndex (handleKeyDown ''ArrowDown'' s) = int (length (results (shown s))) - 1) \<and>
         (selectedIndex s = 0 \<longrightarrow> selectedIndex (handleKeyDown ''ArrowUp'' s) = 0)"
proof -
  have "selectedIndex (run lc (map KeyDown keys) s) < int (length (results (shown s)))"
    and "- 1 \<le> selectedIndex (run lc (map KeyDown keys) s)"
    and "keys \<noteq> [] \<longrightarrow> 0 \<le> selectedIndex (run lc (map KeyDown keys) s)"
    using nav_run_bounds [OF assms, of lc] by simp_all
  moreover have "selectedIndex s = int (length (results (shown s))) - 1 \<longrightarrow>
      selectedIndex (handleKeyDown ''ArrowDown'' s) = int (length (results (shown s))) - 1"
    by (simp add: arrowDown_selectedIndex [OF assms(1,2)])
  moreover have "selectedIndex s = 0 \<longrightarrow> selectedIndex (handleKeyDown ''ArrowUp'' s) = 0"
    by (simp add: arrowUp_selectedIndex [OF assms(1,2)])
  ultimately show ?thesis by simp
qed

theorem selectedIndex_within_bounds_witness:
  "selectedIndex (run codeUnitCompare (map KeyDown [''ArrowDown'', ''ArrowDown'', ''ArrowDown''])
      (showing [janesmith, johnsmith] False (- 1))) \<le> 1 \<and>
   0 \<le> selectedIndex (run codeUnitCompare (map KeyDown [''ArrowDown'', ''ArrowDown'', ''ArrowDown''])
      (showing [janesmith, johnsmith] False (- 1)))"
  using selectedIndex_within_bounds [of "showing [janesmith, johnsmith] False (- 1)"
      "[''ArrowDown'', ''ArrowDown'', ''ArrowDown'']" codeUnitCompare]
  by (simp add: showing_def)

text \<open>The scenario of the tests: three move-downs over two results end on index 1.\<close>

lemma three_downs_over_two_results:
  "selectedIndex (run codeUnitCompare (map KeyDown [''ArrowDown'', ''ArrowDown'', ''ArrowDown''])
      (showing [janesmith, johnsmith] False (- 1))) = 1"
  by (simp add: showing_def step_def handle_def handleKeyDown_def navigateDown_def
      scrollEffect_def fetchingEffect_def perform_def)

subsection \<open>Commit\<close>

text \<open>
  Claim C8. When the Enter key is accepted (non-empty result list, no fetch in flight),
  the default action of the key is prevented and nothing else of the state changes; the
  commit fires exactly when \<open>0 \<le> selectedIndex < length results\<close>, and then it opens the
  \<^verbatim>\<open>url\<close> of the result at \<^verbatim>\<open>selectedIndex\<close> in a new context and blurs the input.
\<close>

theorem commit_fires_in_range:
  assumes "results (shown s) \<noteq> []" and "\<not> fetching (shown s)"
  shows "handleKeyDown ''Enter'' s =
           s\<lparr> effects := effects s @ PreventDefault #
                (if 0 \<le> selectedIndex s \<and> selectedIndex s < int (length (results (shown s)))
                 then [WindowOpen (url (results (shown s) ! nat (selectedIndex s))) ''_blank'',
                       InputBlur]
                 else []) \<rparr>"
  using assms
  by (simp add: handleKeyDown_def handleSelectResult_def perform_def Let_def)

theorem commit_fires_in_range_witness:
  "effects (handleKeyDown ''Enter'' (showing [janesmith, johnsmith] False 0))
     = [PreventDefault, WindowOpen ''https://github.com/janesmith'' ''_blank'', InputBlur] \<and>
   effects (handleKeyDown ''Enter'' (showing [janesmith, johnsmith] False (- 1))) = [PreventDefault] \<and>
   effects (handleKeyDown ''Enter'' (showing [janesmith, johnsmith] False 2)) = [PreventDefault]"
  using commit_fires_in_range [of "showing [janesmith, johnsmith] False 0"]
    commit_fires_in_range [of "showing [janesmith, johnsmith] False (- 1)"]
    commit_fires_in_range [of "showing [janesmith, johnsmith] False 2"]
  by (simp add: showing_def janesmith_def johnsmith_def mockUser_def)





subsection \<open>Dismiss\<close>

text \<open>The Escape key while a fetch is in flight, and over an empty list: still focused.\<close>

theorem escape_ignored_while_fetching:
  "focused (handleKeyDown ''Escape'' (showing [janesmith, johnsmith] True 0)) \<and>
   focused (step codeUnitCompare (KeyDown ''Escape'') (showing [] False (- 1)))"
  by (simp add: showing_def step_def handle_def handleKeyDown_def scrollEffect_def
      fetchingEffect_def)

text \<open>
  Claim C2, amended. A mousedown outside the container sets \<^verbatim>\<open>focused\<close> to false in
  every state, whatever the fetch status and the result list, and changes nothing else.
  The Escape key, when the result list is non-empty and no fetch is in flight, prevents
  the default of the key, sets \<^verbatim>\<open>focused\<close> to false and blurs the input; when the list
  is empty or a fetch is in flight the key is ignored: the state, \<^verbatim>\<open>focused\<close> included,
  stays as it was and the input is not blurred.
\<close>

theorem dismiss_focused:
  "handleClickOutside False s = s\<lparr> focused := False \<rparr> \<and>
   step lc (MouseDown False) s = s\<lparr> focused := False \<rparr> \<and>
   handleKeyDown ''Escape'' s
     = (if results (shown s) = [] \<or> fetching (shown s) then s
        else s\<lparr> focused := False, effects := effects s @ [PreventDefault, InputBlur] \<rparr>) \<and>
   step lc (KeyDown ''Escape'') s
     = (if results (shown s) = [] \<or> fetching (shown s) then s
        else s\<lparr> focused := False, effects := effects s @ [PreventDefault, InputBlur] \<rparr>) \<and>
   \<not> focused (handleClickOutside False s) \<and>
   \<not> focused (step lc (MouseDown False) s) \<and>
   focused (handleKeyDown ''Escape'' s)
     = (focused s \<and> (results (shown s) = [] \<or> fetching (shown s))) \<and>
   focused (step lc (KeyDown ''Escape'') s)
     = (focused s \<and> (results (shown s) = [] \<or> fetching (shown s)))"
proof -
  have 1: "handleClickOutside False s = s\<lparr> focused := False \<rparr>"
    by (simp add: handleClickOutside_def)
  have 2: "step lc (MouseDown False) s = s\<lparr> focused := False \<rparr>"
    by (simp add: step_def handle_def handleClickOutside_def scrollEffect_def fetchingEffect_def)
  have 3: "handleKeyDown ''Escape'' s
     = (if results (shown s) = [] \<or> fetching (shown s) then s
        else s\<lparr> focused := False, effects := effects s @ [PreventDefault, InputBlur] \<rparr>)"
    by (simp add: handleKeyDown_def perform_def)
  have 4: "step lc (KeyDown ''Escape'') s = handleKeyDown ''Escape'' s"
    by (simp add: step_def handle_def 3 scrollEffect_def fetchingEffect_def)
  have 5: "focused (handleKeyDown ''Escape'' s)
     = (focused s \<and> (results (shown s) = [] \<or> fetching (shown s)))"
    by (auto simp add: focused_handleKeyDown)
  from 1 2 3 4 5 show ?thesis by simp
qed

subsection \<open>The dropdown without results\<close>

lemma no_results_message_shown:
  "3 < length dq \<Longrightarrow>
   SearchResults [] i False None dq = Some [NoResultsMessage (noResultsText dq)]"
  by (simp add: SearchResults_def)

lemma no_results_message_not_shown:
  "length dq = 3 \<Longrightarrow> SearchResults [] i False None dq = Some []"
  by (simp add: SearchResults_def)

text \<open>
  Claim C6. For a debounced query of at least 3 characters whose two calls resolved
  with no entry and no error, the dropdown is to show the no-results message with the
  query. The component does so from 4 characters on (\<^verbatim>\<open>debouncedQuery.length > 3\<close>);
  for the 3 characters \<^verbatim>\<open>xyz\<close> the panel is rendered with nothing in it, while the
  6 characters \<^verbatim>\<open>xyz123\<close> get the message.
\<close>

theorem no_results_message_missing_at_length_three:
  "dropdown (run codeUnitCompare
      [InputFocus, QueryChange ''xyz'', HooksUpdate ''xyz'' pending pending,
       HooksUpdate ''xyz'' (success []) (success [])] initial) = Some [] \<and>
   dropdown (run codeUnitCompare
      [InputFocus, QueryChange ''xyz123'', HooksUpdate ''xyz123'' pending pending,
       HooksUpdate ''xyz123'' (success []) (success [])] initial)
     = Some [NoResultsMessage (noResultsText ''xyz123'')]"
  by (simp add: dropdown_def SearchResults_def step_def handle_def initial_def
      handleFocus_def handleQueryChange_def scrollEffect_def fetchingEffect_def
      useAutocomplete_def pending_def success_def js_sort_def)

end
